theory Spec2Isabelle
  imports Main "HOL-Library.Word"
begin

section \<open>JavaScript values and outcomes\<close>

text \<open>
  The manifest is the JSON body of a response of the remote service, so the values the
  routes handle are JSON values, plus \<open>undefined\<close>, which a read of a missing property
  yields. An object is its list of key/value pairs, read through \<open>map_of\<close>. A number is
  carried as the text that JavaScript's \<open>String(n)\<close> gives for it: the program never
  computes with a number, it only tests one for truthiness or passes it on. A string
  in a manifest is carried as its text: the program compares it with literals, searches
  it for \<open>svf\<close> or passes it on. Only \<open>urnify\<close> looks at the code units of a
  string, and has them below.
\<close>

datatype jv =
    JUndefined
  | JNull
  | JBool bool
  | JNum string
  | JStr string
  | JArr "jv list"
  | JObj "(string \<times> jv) list"

text \<open>
  What a function body can throw: \<open>Error(msg)\<close> built by the program, a \<open>TypeError\<close>
  raised by the engine, the rejection of a call of the remote service (with the status of
  its \<open>response\<close>, when it has one), and a failure of the file system.
\<close>

datatype js_error =
    Error string
  | TypeError
  | UpstreamError "nat option"
  | SystemError

datatype 'a outcome = Return 'a | Throw js_error

text \<open>\<open>!v\<close> is \<open>\<not> truthy v\<close>. The falsy values are \<open>undefined\<close>, \<open>null\<close>, \<open>false\<close>,
  \<open>0\<close>, \<open>NaN\<close> and the empty string; every array and every object is truthy.\<close>

fun truthy :: "jv \<Rightarrow> bool" where
  "truthy JUndefined = False"
| "truthy JNull = False"
| "truthy (JBool b) = b"
| "truthy (JNum n) = (n \<noteq> ''0'' \<and> n \<noteq> ''NaN'')"
| "truthy (JStr s) = (s \<noteq> [])"
| "truthy (JArr xs) = True"
| "truthy (JObj kvs) = True"

text \<open>Reading a property of \<open>undefined\<close> or \<open>null\<close> throws a \<open>TypeError\<close>.\<close>

fun nullish :: "jv \<Rightarrow> bool" where
  "nullish JUndefined = True"
| "nullish JNull = True"
| "nullish v = False"

text \<open>
  \<open>member v k\<close> is \<open>v.k\<close> for a \<open>v\<close> that is not nullish. The keys the program reads
  (\<open>derivatives\<close>, \<open>outputType\<close>, \<open>progress\<close>, \<open>status\<close>, \<open>children\<close>, \<open>name\<close>,
  \<open>role\<close>, \<open>urn\<close>, \<open>messages\<close>) are no property of any built-in prototype, so on a
  primitive or an array the read gives \<open>undefined\<close>, and on an object its own property.
\<close>

fun member :: "jv \<Rightarrow> string \<Rightarrow> jv" where
  "member (JObj kvs) k = (case map_of kvs k of Some v \<Rightarrow> v | None \<Rightarrow> JUndefined)"
| "member v k = JUndefined"

text \<open>\<open>for (const x of v)\<close>: an array gives its elements, a string gives strings of one
  character each; nothing else among these values is iterable. (JavaScript steps through
  a string by code point, the model by byte: the loops below only read properties of the
  elements, and a string has none of them, whatever its length.)\<close>

fun iterate :: "jv \<Rightarrow> jv list outcome" where
  "iterate (JArr xs) = Return xs"
| "iterate (JStr s) = Return (map (\<lambda>c. JStr [c]) s)"
| "iterate v = Throw TypeError"

text \<open>
  The text of a value, as \<open>==\<close> and \<open>Array.prototype.join\<close> take it. An object parsed
  from JSON has no callable property of its own: its text is \<open>[object Object]\<close>, from
  \<open>Object.prototype.toString\<close>, unless it has a key \<open>toString\<close> of its own, which hides
  that method behind a value that cannot be called, and then the conversion throws a
  \<open>TypeError\<close>. An array joins the texts of its elements with commas, from left to
  right, \<open>null\<close> and \<open>undefined\<close> elements giving the empty text.
\<close>

fun to_string :: "jv \<Rightarrow> string outcome"
  and join_elements :: "jv list \<Rightarrow> string outcome" where
  "to_string JUndefined = Return ''undefined''"
| "to_string JNull = Return ''null''"
| "to_string (JBool b) = Return (if b then ''true'' else ''false'')"
| "to_string (JNum n) = Return n"
| "to_string (JStr s) = Return s"
| "to_string (JArr xs) = join_elements xs"
| "to_string (JObj kvs) =
     (if map_of kvs ''toString'' = None then Return ''[object Object]'' else Throw TypeError)"
| "join_elements [] = Return []"
| "join_elements [x] = (if nullish x then Return [] else to_string x)"
| "join_elements (x # y # ys) =
     (case (if nullish x then Return [] else to_string x) of
        Throw e \<Rightarrow> Throw e
      | Return s \<Rightarrow>
          (case join_elements (y # ys) of
             Throw e \<Rightarrow> Throw e
           | Return t \<Rightarrow> Return (s @ '','' @ t)))"

text \<open>
  \<open>v == t\<close> for a string literal \<open>t\<close> with \<open>Number(t) = NaN\<close> (so it is for the four
  literals of \<open>parseManifest\<close>): a string is compared as it is, an array or an object
  through its text, which can throw, and a number or a boolean is compared with
  \<open>Number(t)\<close>, which is equal to nothing.
\<close>

fun loose_eq_str :: "jv \<Rightarrow> string \<Rightarrow> bool outcome" where
  "loose_eq_str (JStr s) t = Return (s = t)"
| "loose_eq_str (JArr xs) t =
     (case to_string (JArr xs) of Throw e \<Rightarrow> Throw e | Return r \<Rightarrow> Return (r = t))"
| "loose_eq_str (JObj kvs) t =
     (case to_string (JObj kvs) of Throw e \<Rightarrow> Throw e | Return r \<Rightarrow> Return (r = t))"
| "loose_eq_str v t = Return False"

fun starts_with :: "string \<Rightarrow> string \<Rightarrow> bool" where
  "starts_with s [] = True"
| "starts_with [] (c # t) = False"
| "starts_with (a # s) (c # t) = (a = c \<and> starts_with s t)"

text \<open>\<open>s.includes(t)\<close> on strings: \<open>t\<close> occurs in \<open>s\<close> as a contiguous run.\<close>

fun str_includes :: "string \<Rightarrow> string \<Rightarrow> bool" where
  "str_includes [] t = (t = [])"
| "str_includes (a # s) t = (starts_with (a # s) t \<or> str_includes s t)"

section \<open>parseManifest\<close>

text \<open>The summary \<open>{ cadFileName, sqLiteUrn, propertiesUrn }\<close>: the name of the CAD
  file, the urn of the property database and the urn of the model data.\<close>

record summary =
  cadFileName :: jv
  sqLiteUrn :: jv
  propertiesUrn :: jv

text \<open>What \<open>parseManifest\<close> returns: the summary, or an error as a value.\<close>

datatype parse_result = Summary summary | ErrorValue js_error

text \<open>
  \<open>derivative.outputType?.includes('svf')\<close>: \<open>undefined\<close> when \<open>outputType\<close> is
  nullish, the substring test on a string, the membership test on an array, and a
  \<open>TypeError\<close> on any other value, which has no callable \<open>includes\<close>.
\<close>

fun includes_svf :: "jv \<Rightarrow> jv outcome" where
  "includes_svf JUndefined = Return JUndefined"
| "includes_svf JNull = Return JUndefined"
| "includes_svf (JStr s) = Return (JBool (str_includes s ''svf''))"
| "includes_svf (JArr xs) = Return (JBool (JStr ''svf'' \<in> set xs))"
| "includes_svf v = Throw TypeError"

text \<open>The chain of \<open>&&\<close> gives its first falsy operand, or the last operand; an
  operand is evaluated only when those before it are truthy.\<close>

definition derivativeIsOk :: "jv \<Rightarrow> jv outcome" where
  "derivativeIsOk derivative =
     (if nullish derivative then Throw TypeError
      else case includes_svf (member derivative ''outputType'') of
        Throw e \<Rightarrow> Throw e
      | Return a \<Rightarrow>
          if \<not> truthy a then Return a
          else (case loose_eq_str (member derivative ''progress'') ''complete'' of
              Throw e \<Rightarrow> Throw e
            | Return complete \<Rightarrow>
                if \<not> complete then Return (JBool False)
                else (case loose_eq_str (member derivative ''status'') ''success'' of
                    Throw e \<Rightarrow> Throw e
                  | Return success \<Rightarrow>
                      if \<not> success then Return (JBool False)
                      else Return (member derivative ''children''))))"

text \<open>The inner loop, over the children of one derivative; the state is the pair
  \<open>(sqLiteUrn, propertiesUrn)\<close>.\<close>

fun children_loop :: "jv list \<Rightarrow> jv \<times> jv \<Rightarrow> (jv \<times> jv) outcome" where
  "children_loop [] acc = Return acc"
| "children_loop (child # rest) (sq, pr) =
     (if nullish child then Throw TypeError
      else case loose_eq_str (member child ''role'') ''Autodesk.CloudPlatform.PropertyDatabase'' of
          Throw e \<Rightarrow> Throw e
        | Return isPropertyDb \<Rightarrow>
            (case loose_eq_str (member child ''role'') ''Autodesk.AEC.ModelData'' of
               Throw e \<Rightarrow> Throw e
             | Return isModelData \<Rightarrow>
                 children_loop rest
                   (if isPropertyDb then member child ''urn'' else sq,
                    if isModelData then member child ''urn'' else pr)))"

text \<open>The outer loop, over the derivatives; the state is the three local variables.\<close>

fun derivatives_loop :: "jv list \<Rightarrow> summary \<Rightarrow> summary outcome" where
  "derivatives_loop [] s = Return s"
| "derivatives_loop (derivative # rest) s =
     (case derivativeIsOk derivative of
        Throw e \<Rightarrow> Throw e
      | Return ok \<Rightarrow>
          if \<not> truthy ok then derivatives_loop rest s
          else (case iterate (member derivative ''children'') of
              Throw e \<Rightarrow> Throw e
            | Return children \<Rightarrow>
                (case children_loop children (sqLiteUrn s, propertiesUrn s) of
                   Throw e \<Rightarrow> Throw e
                 | Return (sq, pr) \<Rightarrow>
                     derivatives_loop rest
                       \<lparr>cadFileName = member derivative ''name'',
                        sqLiteUrn = sq, propertiesUrn = pr\<rparr>)))"

text \<open>The body of the \<open>try\<close> block.\<close>

definition parseManifest_try :: "jv \<Rightarrow> parse_result outcome" where
  "parseManifest_try manifest =
     (if \<not> truthy manifest then Return (ErrorValue (Error ''no manifest received''))
      else if \<not> truthy (member manifest ''derivatives'')
        then Return (ErrorValue (Error ''manifest has no derivatives''))
      else case iterate (member manifest ''derivatives'') of
          Throw e \<Rightarrow> Throw e
        | Return derivatives \<Rightarrow>
            (case derivatives_loop derivatives
                    \<lparr>cadFileName = JStr [], sqLiteUrn = JStr [], propertiesUrn = JStr []\<rparr> of
               Throw e \<Rightarrow> Throw e
             | Return s \<Rightarrow> Return (Summary s)))"

text \<open>\<open>try { ... } catch (err) { return err; }\<close>\<close>

definition parseManifest :: "jv \<Rightarrow> parse_result outcome" where
  "parseManifest manifest =
     (case parseManifest_try manifest of
        Throw err \<Rightarrow> Return (ErrorValue err)
      | Return r \<Rightarrow> Return r)"

section \<open>The remote service\<close>

text \<open>
  A call of the Derivatives API either resolves with a response, of which the program
  reads the \<open>body\<close>, or rejects with an error \<open>err\<close>, of which the program reads
  \<open>err.response.status\<close>: \<open>Rejected None\<close> is an error that has no \<open>response\<close>.
\<close>

datatype api_result = Resolved jv | Rejected "nat option"

definition getManifest :: "(string \<Rightarrow> api_result) \<Rightarrow> string \<Rightarrow> jv outcome" where
  "getManifest api urn =
     (case api urn of
        Resolved body \<Rightarrow> Return body
      | Rejected None \<Rightarrow> Throw TypeError
      | Rejected (Some status) \<Rightarrow>
          if status = 404 then Return JNull else Throw (UpstreamError (Some status)))"

section \<open>The status route\<close>

text \<open>\<open>v || []\<close>\<close>

definition or_empty :: "jv \<Rightarrow> jv" where
  "or_empty v = (if truthy v then v else JArr [])"

text \<open>\<open>xs.concat(v)\<close> is a new array: the elements of \<open>xs\<close>, then those of \<open>v\<close> when
  \<open>v\<close> is an array, or \<open>v\<close> itself when it is not.\<close>

fun array_concat :: "jv list \<Rightarrow> jv \<Rightarrow> jv list" where
  "array_concat xs (JArr ys) = xs @ ys"
| "array_concat xs v = xs @ [v]"

text \<open>The loop over the children of a derivative: the statement
  \<open>messages.concat(child.messages || [])\<close> builds an array and drops it; \<open>messages\<close>
  itself is not assigned.\<close>

fun status_children_loop :: "jv list \<Rightarrow> jv list \<Rightarrow> jv list outcome" where
  "status_children_loop [] messages = Return messages"
| "status_children_loop (child # rest) messages =
     (if nullish child then Throw TypeError
      else let dropped = array_concat messages (or_empty (member child ''messages''))
           in status_children_loop rest messages)"

fun status_derivatives_loop :: "jv list \<Rightarrow> jv list \<Rightarrow> jv list outcome" where
  "status_derivatives_loop [] messages = Return messages"
| "status_derivatives_loop (derivative # rest) messages =
     (if nullish derivative then Throw TypeError
      else let messages1 = array_concat messages (or_empty (member derivative ''messages''))
           in if truthy (member derivative ''children'')
              then (case iterate (member derivative ''children'') of
                      Throw e \<Rightarrow> Throw e
                    | Return children \<Rightarrow>
                        (case status_children_loop children messages1 of
                           Throw e \<Rightarrow> Throw e
                         | Return messages2 \<Rightarrow> status_derivatives_loop rest messages2))
              else status_derivatives_loop rest messages1)"

text \<open>What a route handler does with the request: it sends a JSON response, or hands an
  error to \<open>next\<close>.\<close>

datatype response = Json jv | Next js_error

definition status_messages :: "jv \<Rightarrow> jv list outcome" where
  "status_messages manifest =
     (if truthy (member manifest ''derivatives'')
      then (case iterate (member manifest ''derivatives'') of
              Throw e \<Rightarrow> Throw e
            | Return derivatives \<Rightarrow> status_derivatives_loop derivatives [])
      else Return [])"

definition status_route :: "(string \<Rightarrow> api_result) \<Rightarrow> string \<Rightarrow> response" where
  "status_route api urn =
     (case getManifest api urn of
        Throw err \<Rightarrow> Next err
      | Return manifest \<Rightarrow>
          if truthy manifest
          then (case status_messages manifest of
                  Throw err \<Rightarrow> Next err
                | Return messages \<Rightarrow>
                    Json (JObj [(''status'', member manifest ''status''),
                                (''progress'', member manifest ''progress''),
                                (''messages'', JArr messages)]))
          else Json (JObj [(''status'', JStr ''n/a'')]))"

section \<open>translateObject\<close>

definition translateObject_job :: "string \<Rightarrow> jv \<Rightarrow> jv" where
  "translateObject_job urn rootFilename =
     JObj [(''input'',
            JObj ((''urn'', JStr urn) #
                  (if truthy rootFilename
                   then [(''compressedUrn'', JBool True), (''rootFilename'', rootFilename)]
                   else []))),
           (''output'',
            JObj [(''formats'',
                   JArr [JObj [(''type'', JStr ''svf2''),
                               (''views'', JArr [JStr ''2d'', JStr ''3d''])]])])]"

definition translateObject :: "(jv \<Rightarrow> api_result) \<Rightarrow> string \<Rightarrow> jv \<Rightarrow> jv outcome" where
  "translateObject api urn rootFilename =
     (case api (translateObject_job urn rootFilename) of
        Resolved body \<Rightarrow> Return body
      | Rejected status \<Rightarrow> Throw (UpstreamError status))"

section \<open>urnify\<close>

text \<open>
  \<open>Buffer.from(id).toString('base64').replace(/=/g, '')\<close>. The identifier is a
  JavaScript string: a sequence of 16-bit code units (UTF-16). \<open>Buffer.from(id)\<close> holds
  its UTF-8 bytes: a high surrogate followed by a low surrogate is one code point above
  \<open>U+FFFF\<close>, written in four bytes; a surrogate without its partner is replaced by
  \<open>U+FFFD\<close>; every other code unit is its own code point, written in one, two or
  three bytes.
\<close>

definition is_high_surrogate :: "16 word \<Rightarrow> bool" where
  "is_high_surrogate u \<longleftrightarrow> 0xD800 \<le> unat u \<and> unat u \<le> 0xDBFF"

definition is_low_surrogate :: "16 word \<Rightarrow> bool" where
  "is_low_surrogate u \<longleftrightarrow> 0xDC00 \<le> unat u \<and> unat u \<le> 0xDFFF"

definition lone_code_point :: "16 word \<Rightarrow> nat" where
  "lone_code_point u =
     (if is_high_surrogate u \<or> is_low_surrogate u then 0xFFFD else unat u)"

fun code_points :: "16 word list \<Rightarrow> nat list" where
  "code_points [] = []"
| "code_points [u] = [lone_code_point u]"
| "code_points (u # v # rest) =
     (if is_high_surrogate u \<and> is_low_surrogate v
      then (0x10000 + (unat u - 0xD800) * 0x400 + (unat v - 0xDC00)) # code_points rest
      else lone_code_point u # code_points (v # rest))"

definition utf8_bytes :: "nat \<Rightarrow> nat list" where
  "utf8_bytes cp =
     (if cp < 0x80 then [cp]
      else if cp < 0x800 then [0xC0 + cp div 0x40, 0x80 + cp mod 0x40]
      else if cp < 0x10000
        then [0xE0 + cp div 0x1000, 0x80 + cp div 0x40 mod 0x40, 0x80 + cp mod 0x40]
      else [0xF0 + cp div 0x40000, 0x80 + cp div 0x1000 mod 0x40,
            0x80 + cp div 0x40 mod 0x40, 0x80 + cp mod 0x40])"

definition utf8 :: "16 word list \<Rightarrow> string" where
  "utf8 s = map char_of (concat (map utf8_bytes (code_points s)))"

text \<open>
  Base64 (RFC 4648) writes each group of three bytes as four characters of its alphabet,
  six bits each; a last group of one or two bytes gives two or three characters and is
  padded with \<open>=\<close> to four.
\<close>

definition base64_alphabet :: string where
  "base64_alphabet = ''ABCDEFGHIJKLMNOPQRSTUVWXYZabcdefghijklmnopqrstuvwxyz0123456789+/''"

definition base64_char :: "nat \<Rightarrow> char" where
  "base64_char n = base64_alphabet ! n"

fun base64 :: "string \<Rightarrow> string" where
  "base64 [] = []"
| "base64 [a] =
     (let x = (of_char a :: nat)
      in [base64_char (x div 4), base64_char (x mod 4 * 16), CHR ''='', CHR ''=''])"
| "base64 [a, b] =
     (let x = (of_char a :: nat); y = (of_char b :: nat)
      in [base64_char (x div 4), base64_char (x mod 4 * 16 + y div 16),
          base64_char (y mod 16 * 4), CHR ''=''])"
| "base64 (a # b # c # rest) =
     (let x = (of_char a :: nat); y = (of_char b :: nat); z = (of_char c :: nat)
      in [base64_char (x div 4), base64_char (x mod 4 * 16 + y div 16),
          base64_char (y mod 16 * 4 + z div 64), base64_char (z mod 64)] @ base64 rest)"

definition urnify :: "16 word list \<Rightarrow> string" where
  "urnify objectId = filter (\<lambda>c. c \<noteq> CHR ''='') (base64 (utf8 objectId))"

text \<open>A string is well formed when it has no surrogate without its partner
  (\<open>String.prototype.isWellFormed\<close>).\<close>

fun well_formed :: "16 word list \<Rightarrow> bool" where
  "well_formed [] = True"
| "well_formed [u] = (\<not> is_high_surrogate u \<and> \<not> is_low_surrogate u)"
| "well_formed (u # v # rest) =
     (if is_high_surrogate u \<and> is_low_surrogate v then well_formed rest
      else \<not> is_high_surrogate u \<and> \<not> is_low_surrogate u \<and> well_formed (v # rest))"

text \<open>Reading an urn back, used to show that \<open>urnify\<close> loses nothing on well-formed
  strings: the place of a character in the alphabet, the bytes that groups of
  characters stand for, the code points that groups of bytes stand for, and the code
  units of a code point.\<close>

fun index_of :: "char \<Rightarrow> string \<Rightarrow> nat" where
  "index_of c [] = 0"
| "index_of c (x # xs) = (if x = c then 0 else Suc (index_of c xs))"

definition base64_value :: "char \<Rightarrow> nat" where
  "base64_value c = index_of c base64_alphabet"

fun unbase64 :: "string \<Rightarrow> string" where
  "unbase64 (p # q # r # s # rest) =
     (let i = base64_value p; j = base64_value q; k = base64_value r; l = base64_value s
      in [char_of (i * 4 + j div 16), char_of (j mod 16 * 16 + k div 4),
          char_of (k mod 4 * 64 + l)] @ unbase64 rest)"
| "unbase64 [p, q, r] =
     (let i = base64_value p; j = base64_value q; k = base64_value r
      in [char_of (i * 4 + j div 16), char_of (j mod 16 * 16 + k div 4)])"
| "unbase64 [p, q] =
     (let i = base64_value p; j = base64_value q
      in [char_of (i * 4 + j div 16)])"
| "unbase64 s = []"

fun utf8_decode :: "nat list \<Rightarrow> nat list" where
  "utf8_decode [] = []"
| "utf8_decode (b0 # bs) =
     (if b0 < 0x80 then b0 # utf8_decode bs
      else if b0 < 0xE0 then
        (case bs of
           b1 # r \<Rightarrow> ((b0 - 0xC0) * 0x40 + (b1 - 0x80)) # utf8_decode r
         | _ \<Rightarrow> [])
      else if b0 < 0xF0 then
        (case bs of
           b1 # b2 # r \<Rightarrow>
             ((b0 - 0xE0) * 0x1000 + (b1 - 0x80) * 0x40 + (b2 - 0x80)) # utf8_decode r
         | _ \<Rightarrow> [])
      else
        (case bs of
           b1 # b2 # b3 # r \<Rightarrow>
             ((b0 - 0xF0) * 0x40000 + (b1 - 0x80) * 0x1000 + (b2 - 0x80) * 0x40 + (b3 - 0x80))
               # utf8_decode r
         | _ \<Rightarrow> []))"

fun code_units :: "nat list \<Rightarrow> 16 word list" where
  "code_units [] = []"
| "code_units (cp # cps) =
     (if cp < 0x10000 then [of_nat cp]
      else [of_nat (0xD800 + (cp - 0x10000) div 0x400),
            of_nat (0xDC00 + (cp - 0x10000) mod 0x400)]) @ code_units cps"

section \<open>Paths\<close>

text \<open>
  Node's \<open>path\<close> module on a POSIX system. \<open>path.basename(p)\<close> drops the trailing
  slashes of \<open>p\<close> and gives what follows the last slash that is left.
\<close>

definition basename :: "string \<Rightarrow> string" where
  "basename p =
     rev (takeWhile (\<lambda>c. c \<noteq> CHR ''/'') (dropWhile (\<lambda>c. c = CHR ''/'') (rev p)))"

text \<open>The segments of a path between its slashes, and back.\<close>

fun split_slash :: "string \<Rightarrow> string list" where
  "split_slash [] = [[]]"
| "split_slash (c # cs) =
     (if c = CHR ''/'' then [] # split_slash cs
      else (case split_slash cs of
              [] \<Rightarrow> [[c]]
            | seg # segs \<Rightarrow> (c # seg) # segs))"

fun join_slash :: "string list \<Rightarrow> string" where
  "join_slash [] = []"
| "join_slash [s] = s"
| "join_slash (s # t # ss) = s @ ''/'' @ join_slash (t # ss)"

text \<open>
  \<open>normalizeString\<close>: empty segments and \<open>.\<close> are dropped; \<open>..\<close> removes the segment
  before it, unless there is none or it is \<open>..\<close> itself, and then \<open>..\<close> is kept when
  the path may climb above its start (it is relative) and dropped when it may not.
\<close>

fun normalize_segments :: "bool \<Rightarrow> string list \<Rightarrow> string list \<Rightarrow> string list" where
  "normalize_segments allowAboveRoot [] res = res"
| "normalize_segments allowAboveRoot (seg # segs) res =
     (if seg = [] \<or> seg = ''.'' then normalize_segments allowAboveRoot segs res
      else if seg = ''..'' then
        (if res \<noteq> [] \<and> last res \<noteq> ''..''
           then normalize_segments allowAboveRoot segs (butlast res)
         else if allowAboveRoot
           then normalize_segments allowAboveRoot segs (res @ [''..''])
         else normalize_segments allowAboveRoot segs res)
      else normalize_segments allowAboveRoot segs (res @ [seg]))"

definition normalize :: "string \<Rightarrow> string" where
  "normalize p =
     (if p = [] then ''.''
      else let isAbsolute = (hd p = CHR ''/'');
               trailingSeparator = (last p = CHR ''/'');
               q = join_slash (normalize_segments (\<not> isAbsolute) (split_slash p) [])
           in if q = [] then (if isAbsolute then ''/''
                              else if trailingSeparator then ''./'' else ''.'')
              else (if isAbsolute then ''/'' else []) @ q
                   @ (if trailingSeparator then ''/'' else []))"

text \<open>\<open>path.join(...)\<close> joins its non-empty arguments with slashes and normalizes.\<close>

definition path_join :: "string list \<Rightarrow> string" where
  "path_join args =
     (case filter (\<lambda>a. a \<noteq> []) args of
        [] \<Rightarrow> ''.''
      | parts \<Rightarrow> normalize (join_slash parts))"

section \<open>createResultDirectory\<close>

text \<open>
  The file system, as far as \<open>createDirectory\<close> sees it: the paths that exist, and
  the paths that \<open>mkdirSync\<close> cannot create (it throws on them).
\<close>

record fs =
  existing :: "string set"
  mkdir_fails :: "string set"

definition existsSync :: "fs \<Rightarrow> string \<Rightarrow> bool" where
  "existsSync f p = (p \<in> existing f)"

definition mkdirSync :: "fs \<Rightarrow> string \<Rightarrow> fs outcome" where
  "mkdirSync f p =
     (if p \<in> mkdir_fails f then Throw SystemError
      else Return (f\<lparr>existing := insert p (existing f)\<rparr>))"

definition createDirectory :: "fs \<Rightarrow> string \<Rightarrow> (bool \<times> fs) outcome" where
  "createDirectory f dirPath =
     (case (if \<not> existsSync f dirPath then mkdirSync f dirPath else Return f) of
        Throw e \<Rightarrow> Throw e
      | Return f' \<Rightarrow> Return (existsSync f' dirPath, f'))"

text \<open>What \<open>createResultDirectory\<close> returns: the path, or an error as a value.\<close>

datatype directory_result = Path string | DirectoryError js_error

text \<open>\<open>dirname\<close> is \<open>__dirname\<close>, the directory of \<open>routes/models.js\<close>. The name comes
  from the manifest and can be any value; \<open>path.basename\<close> throws a \<open>TypeError\<close> on
  one that is not a string.\<close>

definition createResultDirectory ::
  "string \<Rightarrow> fs \<Rightarrow> jv \<Rightarrow> (directory_result \<times> fs) outcome" where
  "createResultDirectory dirname f cad_file_name =
     (if \<not> truthy cad_file_name
      then Return (DirectoryError (Error ''No CAD file name provided.''), f)
      else let baseResultDir = path_join [dirname, ''..'', ''results'']
        in case createDirectory f baseResultDir of
             Throw e \<Rightarrow> Throw e
           | Return (made, f1) \<Rightarrow>
               if \<not> made
               then Return (DirectoryError (Error ''Could not create base results directory.''), f1)
               else (case cad_file_name of
                   JStr name \<Rightarrow>
                     (let resultDir = path_join [baseResultDir, basename name]
                      in case createDirectory f1 resultDir of
                           Throw e \<Rightarrow> Throw e
                         | Return (made2, f2) \<Rightarrow>
                             if \<not> made2
                             then Return (DirectoryError
                                            (Error ''Could not create results directory.''), f2)
                             else Return (Path resultDir, f2))
                 | _ \<Rightarrow> Throw TypeError))"

text \<open>A segment that \<open>normalizeString\<close> keeps as it is: a name, not empty, not \<open>.\<close>
  and not \<open>..\<close>.\<close>

definition plain_segment :: "string \<Rightarrow> bool" where
  "plain_segment s \<longleftrightarrow> s \<noteq> [] \<and> s \<noteq> ''.'' \<and> s \<noteq> ''..'' \<and> CHR ''/'' \<notin> set s"

section \<open>Properties of parseManifest\<close>

text \<open>
  C1. For the manifest whose only derivative has output type \<open>svf\<close>, progress
  \<open>complete\<close>, status \<open>success\<close>, name \<open>house.rvt\<close> and the two children with the
  property-database role (urn \<open>U1\<close>) and the model-data role (urn \<open>U2\<close>), both of type
  \<open>resource\<close>, \<open>parseManifest\<close> returns the summary with \<open>house.rvt\<close>, \<open>U1\<close> and
  \<open>U2\<close>, and not an error.
\<close>

theorem parseManifest_house_example:
  "parseManifest
     (JObj [(''derivatives'', JArr [
        JObj [(''outputType'', JStr ''svf''),
              (''progress'', JStr ''complete''),
              (''status'', JStr ''success''),
              (''name'', JStr ''house.rvt''),
              (''children'', JArr [
                 JObj [(''role'', JStr ''Autodesk.CloudPlatform.PropertyDatabase''),
                       (''type'', JStr ''resource''), (''urn'', JStr ''U1'')],
                 JObj [(''role'', JStr ''Autodesk.AEC.ModelData''),
                       (''type'', JStr ''resource''), (''urn'', JStr ''U2'')]])]])])
   = Return (Summary \<lparr>cadFileName = JStr ''house.rvt'',
                       sqLiteUrn = JStr ''U1'', propertiesUrn = JStr ''U2''\<rparr>)"
  by (simp add: parseManifest_def parseManifest_try_def derivativeIsOk_def)

text \<open>
  C2, as stated: a child of a passing derivative whose role is the property-database role
  and whose type is not \<open>resource\<close> would not be captured. It is: \<open>parseManifest\<close>
  does not read \<open>type\<close>, and here the urn \<open>U1\<close> of a child of type \<open>geometry\<close>
  becomes \<open>sqLiteUrn\<close>.
\<close>

theorem parseManifest_ignores_type_counterexample:
  "parseManifest
     (JObj [(''derivatives'', JArr [
        JObj [(''outputType'', JStr ''svf''),
              (''progress'', JStr ''complete''),
              (''status'', JStr ''success''),
              (''name'', JStr ''house.rvt''),
              (''children'', JArr [
                 JObj [(''role'', JStr ''Autodesk.CloudPlatform.PropertyDatabase''),
                       (''type'', JStr ''geometry''), (''urn'', JStr ''U1'')]])]])])
   = Return (Summary \<lparr>cadFileName = JStr ''house.rvt'',
                       sqLiteUrn = JStr ''U1'', propertiesUrn = JStr []\<rparr>)"
  by (simp add: parseManifest_def parseManifest_try_def derivativeIsOk_def)

text \<open>How a run that ends in a summary went: through the derivatives before the last
  passing one, through the children of that one, and past the ones after it.\<close>

lemma derivatives_loop_append:
  "derivatives_loop (xs @ ys) s =
     (case derivatives_loop xs s of Throw e \<Rightarrow> Throw e | Return s' \<Rightarrow> derivatives_loop ys s')"
proof (induction xs arbitrary: s)
  case Nil
  show ?case by simp
next
  case (Cons d xs)
  show ?case
  proof (cases "derivativeIsOk d")
    case (Throw e)
    then show ?thesis by simp
  next
    case ok: (Return ok)
    show ?thesis
    proof (cases "iterate (member d ''children'')")
      case (Throw e)
      with ok Cons.IH show ?thesis by simp
    next
      case it: (Return children)
      show ?thesis
      proof (cases "children_loop children (sqLiteUrn s, propertiesUrn s)")
        case (Throw e)
        with ok it Cons.IH show ?thesis by simp
      next
        case (Return acc)
        with ok it Cons.IH show ?thesis by (cases acc) simp
      qed
    qed
  qed
qed

lemma derivatives_loop_skipped:
  assumes "derivatives_loop later s' = Return s"
    and "\<forall>d \<in> set later. \<forall>v. derivativeIsOk d = Return v \<longrightarrow> \<not> truthy v"
  shows "s = s'"
  using assms
proof (induction later)
  case Nil
  then show ?case by simp
next
  case (Cons d later)
  show ?case
  proof (cases "derivativeIsOk d")
    case (Throw e)
    with Cons.prems(1) show ?thesis by simp
  next
    case (Return v)
    with Cons.prems(2) have "\<not> truthy v" by simp
    with Return Cons.prems(1) have "derivatives_loop later s' = Return s" by simp
    with Cons.IH Cons.prems(2) show ?thesis by simp
  qed
qed

lemma derivatives_loop_passing:
  assumes "derivativeIsOk d = Return ok" "truthy ok"
    and "derivatives_loop (d # later) s1 = Return s"
  shows "\<exists>children sq pr. iterate (member d ''children'') = Return children \<and>
           children_loop children (sqLiteUrn s1, propertiesUrn s1) = Return (sq, pr) \<and>
           derivatives_loop later
             \<lparr>cadFileName = member d ''name'', sqLiteUrn = sq, propertiesUrn = pr\<rparr> = Return s"
proof (cases "iterate (member d ''children'')")
  case (Throw e)
  with assms show ?thesis by simp
next
  case it: (Return children)
  show ?thesis
  proof (cases "children_loop children (sqLiteUrn s1, propertiesUrn s1)")
    case (Throw e)
    with assms it show ?thesis by simp
  next
    case (Return acc)
    with assms it show ?thesis by (cases acc) simp
  qed
qed

lemma parseManifest_summary_run:
  assumes "member manifest ''derivatives'' = JArr ds"
    and "parseManifest manifest = Return (Summary s)"
  shows "derivatives_loop ds
      \<lparr>cadFileName = JStr [], sqLiteUrn = JStr [], propertiesUrn = JStr []\<rparr> = Return s"
proof -
  have "truthy manifest"
    using assms(1) by (cases manifest) simp_all
  with assms show ?thesis
    by (simp add: parseManifest_def parseManifest_try_def split: outcome.splits)
qed

lemma last_passing_run:
  assumes m: "member manifest ''derivatives'' = JArr (earlier @ d # later)"
    and ret: "parseManifest manifest = Return (Summary s)"
    and ok: "derivativeIsOk d = Return ok" "truthy ok"
    and later: "\<forall>x \<in> set later. \<forall>v. derivativeIsOk x = Return v \<longrightarrow> \<not> truthy v"
  shows "\<exists>s1 children sq pr.
           derivatives_loop earlier
             \<lparr>cadFileName = JStr [], sqLiteUrn = JStr [], propertiesUrn = JStr []\<rparr> = Return s1 \<and>
           iterate (member d ''children'') = Return children \<and>
           children_loop children (sqLiteUrn s1, propertiesUrn s1) = Return (sq, pr) \<and>
           s = \<lparr>cadFileName = member d ''name'', sqLiteUrn = sq, propertiesUrn = pr\<rparr>"
proof -
  let ?init = "\<lparr>cadFileName = JStr [], sqLiteUrn = JStr [], propertiesUrn = JStr []\<rparr>"
  from parseManifest_summary_run [OF m ret]
  have run: "derivatives_loop (earlier @ d # later) ?init = Return s" .
  then obtain s1 where s1: "derivatives_loop earlier ?init = Return s1"
    and rest: "derivatives_loop (d # later) s1 = Return s"
    by (cases "derivatives_loop earlier ?init") (simp_all add: derivatives_loop_append)
  from derivatives_loop_passing [OF ok rest] obtain children sq pr
    where it: "iterate (member d ''children'') = Return children"
      and ch: "children_loop children (sqLiteUrn s1, propertiesUrn s1) = Return (sq, pr)"
      and lt: "derivatives_loop later
             \<lparr>cadFileName = member d ''name'', sqLiteUrn = sq, propertiesUrn = pr\<rparr> = Return s"
    by blast
  from derivatives_loop_skipped [OF lt later] s1 it ch show ?thesis by blast
qed

lemma children_loop_append:
  "children_loop (xs @ ys) acc =
     (case children_loop xs acc of Throw e \<Rightarrow> Throw e | Return acc' \<Rightarrow> children_loop ys acc')"
proof (induction xs arbitrary: acc)
  case Nil
  show ?case by simp
next
  case (Cons c xs)
  obtain sq pr where acc: "acc = (sq, pr)" by (cases acc)
  show ?case
    unfolding acc using Cons.IH
    by (simp split: outcome.splits)
qed

lemma children_loop_keeps:
  assumes "children_loop cs (sq, pr) = Return (sq', pr')"
  shows "(\<forall>c \<in> set cs. loose_eq_str (member c ''role'') ''Autodesk.CloudPlatform.PropertyDatabase''
            \<noteq> Return True) \<longrightarrow> sq' = sq"
    and "(\<forall>c \<in> set cs. loose_eq_str (member c ''role'') ''Autodesk.AEC.ModelData''
            \<noteq> Return True) \<longrightarrow> pr' = pr"
  using assms
proof (induction cs arbitrary: sq pr)
  case Nil
  {
    case 1 then show ?case by simp
  next
    case 2 then show ?case by simp
  }
next
  case (Cons c cs)
  {
    case 1
    then show ?case
      using Cons.IH(1) by (auto split: if_splits outcome.splits)
  next
    case 2
    then show ?case
      using Cons.IH(2) by (auto split: if_splits outcome.splits)
  }
qed

lemma children_loop_captures:
  assumes "children_loop (c # after) (sq, pr) = Return (sq', pr')"
    and "loose_eq_str (member c ''role'') t = Return True"
    and "\<forall>x \<in> set after. loose_eq_str (member x ''role'') t \<noteq> Return True"
  shows "(t = ''Autodesk.CloudPlatform.PropertyDatabase'' \<longrightarrow> sq' = member c ''urn'') \<and>
         (t = ''Autodesk.AEC.ModelData'' \<longrightarrow> pr' = member c ''urn'')"
proof -
  from assms(1) obtain isDb isModel
    where db: "loose_eq_str (member c ''role'') ''Autodesk.CloudPlatform.PropertyDatabase'' = Return isDb"
      and md: "loose_eq_str (member c ''role'') ''Autodesk.AEC.ModelData'' = Return isModel"
      and rest: "children_loop after
          (if isDb then member c ''urn'' else sq, if isModel then member c ''urn'' else pr)
          = Return (sq', pr')"
    by (auto split: if_splits outcome.splits)
  from children_loop_keeps [OF rest] db md assms(2,3) show ?thesis
    by auto
qed

lemma derivatives_loop_keeps:
  assumes "derivatives_loop later s' = Return s"
    and "\<forall>x \<in> set later. \<forall>v cs.
           derivativeIsOk x = Return v \<and> truthy v \<and>
           iterate (member x ''children'') = Return cs \<longrightarrow>
           (\<forall>c \<in> set cs. loose_eq_str (member c ''role'') t \<noteq> Return True)"
  shows "(t = ''Autodesk.CloudPlatform.PropertyDatabase'' \<longrightarrow> sqLiteUrn s = sqLiteUrn s') \<and>
         (t = ''Autodesk.AEC.ModelData'' \<longrightarrow> propertiesUrn s = propertiesUrn s')"
  using assms
proof (induction later arbitrary: s')
  case Nil
  then show ?case by simp
next
  case (Cons d later)
  from Cons.prems(2)
  have rest: "\<forall>x \<in> set later. \<forall>v cs.
           derivativeIsOk x = Return v \<and> truthy v \<and>
           iterate (member x ''children'') = Return cs \<longrightarrow>
           (\<forall>c \<in> set cs. loose_eq_str (member c ''role'') t \<noteq> Return True)"
    by (meson list.set_intros(2))
  show ?case
  proof (cases "derivativeIsOk d")
    case (Throw e)
    with Cons.prems(1) show ?thesis by simp
  next
    case (Return v)
    show ?thesis
    proof (cases "truthy v")
      case False
      with Return Cons.prems(1) have "derivatives_loop later s' = Return s" by simp
      from Cons.IH [OF this rest] show ?thesis .
    next
      case True
      from derivatives_loop_passing [OF Return True Cons.prems(1)] obtain cs sq pr
        where it: "iterate (member d ''children'') = Return cs"
          and ch: "children_loop cs (sqLiteUrn s', propertiesUrn s') = Return (sq, pr)"
          and lt: "derivatives_loop later
             \<lparr>cadFileName = member d ''name'', sqLiteUrn = sq, propertiesUrn = pr\<rparr> = Return s"
        by blast
      from Cons.prems(2) Return True it
      have none: "\<forall>c \<in> set cs. loose_eq_str (member c ''role'') t \<noteq> Return True"
        by (meson list.set_intros(1))
      from children_loop_keeps [OF ch] none
      have "(t = ''Autodesk.CloudPlatform.PropertyDatabase'' \<longrightarrow> sq = sqLiteUrn s') \<and>
            (t = ''Autodesk.AEC.ModelData'' \<longrightarrow> pr = propertiesUrn s')"
        by auto
      with Cons.IH [OF lt rest] show ?thesis by simp
    qed
  qed
qed

text \<open>
  C2, amended: a child whose role matches is captured whatever its type. Let
  \<open>parseManifest\<close> return a summary, let \<open>d\<close> be a derivative that passes the filter
  and \<open>c\<close> one of its children, of any type \<open>ty\<close>, whose role is the tag \<open>t\<close>. If
  nothing overwrites it, that is, no child of \<open>d\<close> after \<open>c\<close> and no child of a later
  passing derivative has the role \<open>t\<close>, then the urn of \<open>c\<close> is \<open>sqLiteUrn\<close> of the
  summary when \<open>t\<close> is the property-database tag, and \<open>propertiesUrn\<close> when \<open>t\<close> is
  the model-data tag.
\<close>

theorem parseManifest_captures_any_type:
  assumes m: "member manifest ''derivatives'' = JArr (earlier @ d # later)"
    and ret: "parseManifest manifest = Return (Summary s)"
    and ok: "derivativeIsOk d = Return ok" "truthy ok"
    and it: "iterate (member d ''children'') = Return (before @ c # after)"
    and ty: "member c ''type'' = ty"
    and role: "loose_eq_str (member c ''role'') t = Return True"
    and after: "\<forall>x \<in> set after. loose_eq_str (member x ''role'') t \<noteq> Return True"
    and later: "\<forall>x \<in> set later. \<forall>v cs.
           derivativeIsOk x = Return v \<and> truthy v \<and>
           iterate (member x ''children'') = Return cs \<longrightarrow>
           (\<forall>c' \<in> set cs. loose_eq_str (member c' ''role'') t \<noteq> Return True)"
  shows "(t = ''Autodesk.CloudPlatform.PropertyDatabase'' \<longrightarrow> sqLiteUrn s = member c ''urn'') \<and>
         (t = ''Autodesk.AEC.ModelData'' \<longrightarrow> propertiesUrn s = member c ''urn'')"
proof -
  let ?init = "\<lparr>cadFileName = JStr [], sqLiteUrn = JStr [], propertiesUrn = JStr []\<rparr>"
  from parseManifest_summary_run [OF m ret]
  have "derivatives_loop (earlier @ d # later) ?init = Return s" .
  then obtain s1 where rest: "derivatives_loop (d # later) s1 = Return s"
    by (cases "derivatives_loop earlier ?init") (simp_all add: derivatives_loop_append)
  from derivatives_loop_passing [OF ok rest] it obtain sq pr
    where ch: "children_loop (before @ c # after) (sqLiteUrn s1, propertiesUrn s1) = Return (sq, pr)"
      and lt: "derivatives_loop later
             \<lparr>cadFileName = member d ''name'', sqLiteUrn = sq, propertiesUrn = pr\<rparr> = Return s"
    by auto
  from ch obtain acc where "children_loop (c # after) acc = Return (sq, pr)"
    by (cases "children_loop before (sqLiteUrn s1, propertiesUrn s1)")
       (simp_all add: children_loop_append)
  then obtain sq0 pr0 where "children_loop (c # after) (sq0, pr0) = Return (sq, pr)"
    by (cases acc) simp
  from children_loop_captures [OF this role after]
  have "(t = ''Autodesk.CloudPlatform.PropertyDatabase'' \<longrightarrow> sq = member c ''urn'') \<and>
        (t = ''Autodesk.AEC.ModelData'' \<longrightarrow> pr = member c ''urn'')" .
  with derivatives_loop_keeps [OF lt later] show ?thesis
    by simp
qed

theorem parseManifest_captures_any_type_witness:
  "parseManifest
     (JObj [(''derivatives'', JArr [
        JObj [(''outputType'', JStr ''svf''), (''progress'', JStr ''complete''),
              (''status'', JStr ''success''), (''name'', JStr ''a.rvt''),
              (''children'', JArr [
                 JObj [(''role'', JStr ''Autodesk.AEC.ModelData''),
                       (''type'', JStr ''view''), (''urn'', JStr ''U2'')],
                 JObj [(''role'', JStr ''Autodesk.CloudPlatform.PropertyDatabase''),
                       (''type'', JStr ''geometry''), (''urn'', JStr ''U1'')],
                 JObj [(''role'', JStr ''graphics''),
                       (''type'', JStr ''resource''), (''urn'', JStr ''U3'')]])],
        JObj [(''outputType'', JStr ''svf''), (''progress'', JStr ''complete''),
              (''status'', JStr ''success''), (''name'', JStr ''b.rvt''),
              (''children'', JArr [
                 JObj [(''role'', JStr ''graphics''),
                       (''type'', JStr ''resource''), (''urn'', JStr ''U4'')]])]])])
   = Return (Summary \<lparr>cadFileName = JStr ''b.rvt'',
                       sqLiteUrn = JStr ''U1'', propertiesUrn = JStr ''U2''\<rparr>) \<and>
   member (JObj [(''role'', JStr ''Autodesk.CloudPlatform.PropertyDatabase''),
                 (''type'', JStr ''geometry''), (''urn'', JStr ''U1'')]) ''type''
     = JStr ''geometry'' \<and>
   sqLiteUrn \<lparr>cadFileName = JStr ''b.rvt'',
              sqLiteUrn = JStr ''U1'', propertiesUrn = JStr ''U2''\<rparr>
     = member (JObj [(''role'', JStr ''Autodesk.CloudPlatform.PropertyDatabase''),
                     (''type'', JStr ''geometry''), (''urn'', JStr ''U1'')]) ''urn'' \<and>
   propertiesUrn \<lparr>cadFileName = JStr ''b.rvt'',
                  sqLiteUrn = JStr ''U1'', propertiesUrn = JStr ''U2''\<rparr>
     = member (JObj [(''role'', JStr ''Autodesk.AEC.ModelData''),
                     (''type'', JStr ''view''), (''urn'', JStr ''U2'')]) ''urn''"
proof -
  let ?md = "JObj [(''role'', JStr ''Autodesk.AEC.ModelData''),
                   (''type'', JStr ''view''), (''urn'', JStr ''U2'')]"
  let ?db = "JObj [(''role'', JStr ''Autodesk.CloudPlatform.PropertyDatabase''),
                   (''type'', JStr ''geometry''), (''urn'', JStr ''U1'')]"
  let ?gr = "JObj [(''role'', JStr ''graphics''),
                   (''type'', JStr ''resource''), (''urn'', JStr ''U3'')]"
  let ?g2 = "JObj [(''role'', JStr ''graphics''),
                   (''type'', JStr ''resource''), (''urn'', JStr ''U4'')]"
  let ?d = "JObj [(''outputType'', JStr ''svf''), (''progress'', JStr ''complete''),
                  (''status'', JStr ''success''), (''name'', JStr ''a.rvt''),
                  (''children'', JArr [?md, ?db, ?gr])]"
  let ?d2 = "JObj [(''outputType'', JStr ''svf''), (''progress'', JStr ''complete''),
                   (''status'', JStr ''success''), (''name'', JStr ''b.rvt''),
                   (''children'', JArr [?g2])]"
  let ?m = "JObj [(''derivatives'', JArr [?d, ?d2])]"
  let ?s = "\<lparr>cadFileName = JStr ''b.rvt'',
              sqLiteUrn = JStr ''U1'', propertiesUrn = JStr ''U2''\<rparr>"
  let ?PD = "''Autodesk.CloudPlatform.PropertyDatabase''"
  let ?MD = "''Autodesk.AEC.ModelData''"
  have m: "member ?m ''derivatives'' = JArr ([] @ ?d # [?d2])"
    by simp
  have ret: "parseManifest ?m = Return (Summary ?s)"
    by (simp add: parseManifest_def parseManifest_try_def derivativeIsOk_def)
  have ok: "derivativeIsOk ?d = Return (JArr [?md, ?db, ?gr])" "truthy (JArr [?md, ?db, ?gr])"
    by (simp_all add: derivativeIsOk_def)
  have it_db: "iterate (member ?d ''children'') = Return ([?md] @ ?db # [?gr])"
    by simp
  have it_md: "iterate (member ?d ''children'') = Return ([] @ ?md # [?db, ?gr])"
    by simp
  have ty_db: "member ?db ''type'' = JStr ''geometry''"
    by simp
  have ty_md: "member ?md ''type'' = JStr ''view''"
    by simp
  have role_db: "loose_eq_str (member ?db ''role'') ?PD = Return True"
    by simp
  have role_md: "loose_eq_str (member ?md ''role'') ?MD = Return True"
    by simp
  have after_db: "\<forall>x \<in> set [?gr]. loose_eq_str (member x ''role'') ?PD \<noteq> Return True"
    by simp
  have after_md: "\<forall>x \<in> set [?db, ?gr]. loose_eq_str (member x ''role'') ?MD \<noteq> Return True"
    by simp
  have later_db: "\<forall>x \<in> set [?d2]. \<forall>v cs.
      derivativeIsOk x = Return v \<and> truthy v \<and> iterate (member x ''children'') = Return cs \<longrightarrow>
      (\<forall>c' \<in> set cs. loose_eq_str (member c' ''role'') ?PD \<noteq> Return True)"
    by (auto simp add: derivativeIsOk_def)
  have later_md: "\<forall>x \<in> set [?d2]. \<forall>v cs.
      derivativeIsOk x = Return v \<and> truthy v \<and> iterate (member x ''children'') = Return cs \<longrightarrow>
      (\<forall>c' \<in> set cs. loose_eq_str (member c' ''role'') ?MD \<noteq> Return True)"
    by (auto simp add: derivativeIsOk_def)
  note for_db =
    parseManifest_captures_any_type [OF m ret ok it_db ty_db role_db after_db later_db]
  note for_md =
    parseManifest_captures_any_type [OF m ret ok it_md ty_md role_md after_md later_md]
  have "sqLiteUrn ?s = member ?db ''urn''"
    by (rule mp [OF conjunct1 [OF for_db] refl])
  moreover have "propertiesUrn ?s = member ?md ''urn''"
    by (rule mp [OF conjunct2 [OF for_md] refl])
  ultimately show ?thesis
    using ret ty_db by blast
qed

text \<open>
  C3, as stated: a manifest whose \<open>derivatives\<close> is present but empty would give the
  error \<open>manifest has no derivatives\<close>. It does not: the empty array is truthy, so the
  guard \<open>!manifest.derivatives\<close> lets it through.
\<close>

theorem parseManifest_empty_derivatives_counterexample:
  "parseManifest (JObj [(''derivatives'', JArr [])])
     \<noteq> Return (ErrorValue (Error ''manifest has no derivatives''))"
  by (simp add: parseManifest_def parseManifest_try_def)

text \<open>
  C3, amended: for a manifest that is there, \<open>parseManifest\<close> returns the error
  \<open>manifest has no derivatives\<close> when \<open>derivatives\<close> is absent (or otherwise falsy);
  when \<open>derivatives\<close> is the empty array it returns the summary of three empty
  strings, and no error.
\<close>

theorem parseManifest_no_derivatives:
  "truthy manifest \<Longrightarrow>
   (\<not> truthy (member manifest ''derivatives'') \<longrightarrow>
      parseManifest manifest = Return (ErrorValue (Error ''manifest has no derivatives''))) \<and>
   (member manifest ''derivatives'' = JArr [] \<longrightarrow>
      parseManifest manifest =
        Return (Summary \<lparr>cadFileName = JStr [], sqLiteUrn = JStr [], propertiesUrn = JStr []\<rparr>))"
  by (simp add: parseManifest_def parseManifest_try_def)

theorem parseManifest_no_derivatives_witness:
  "parseManifest (JObj [(''status'', JStr ''pending'')])
     = Return (ErrorValue (Error ''manifest has no derivatives'')) \<and>
   parseManifest (JObj [(''derivatives'', JArr [])])
     = Return (Summary \<lparr>cadFileName = JStr [], sqLiteUrn = JStr [], propertiesUrn = JStr []\<rparr>)"
  using parseManifest_no_derivatives [of "JObj [(''status'', JStr ''pending'')]"]
        parseManifest_no_derivatives [of "JObj [(''derivatives'', JArr [])]"]
  by simp

text \<open>
  C9. \<open>parseManifest\<close> returns for every value, well-formed manifest or not: either a
  summary or an error value. Nothing is thrown to the caller, since whatever the body
  throws is caught and returned.
\<close>

theorem parseManifest_total:
  "(\<exists>s. parseManifest manifest = Return (Summary s)) \<or>
   (\<exists>e. parseManifest manifest = Return (ErrorValue e))"
proof (cases "parseManifest_try manifest")
  case (Return r)
  then have "parseManifest manifest = Return r"
    by (simp add: parseManifest_def)
  then show ?thesis
    by (cases r) simp_all
next
  case (Throw err)
  then have "parseManifest manifest = Return (ErrorValue err)"
    by (simp add: parseManifest_def)
  then show ?thesis by simp
qed

text \<open>Four malformed manifests: \<open>derivatives\<close> is an object, a derivative is \<open>null\<close>,
  the \<open>children\<close> of a passing derivative are a number, and the role of a child is an
  object with a key \<open>toString\<close>. Each time the \<open>TypeError\<close> comes back as the result.\<close>

lemma parseManifest_malformed_examples:
  "parseManifest (JObj [(''derivatives'', JObj [])]) = Return (ErrorValue TypeError)"
  "parseManifest (JObj [(''derivatives'', JArr [JNull])]) = Return (ErrorValue TypeError)"
  "parseManifest
     (JObj [(''derivatives'', JArr [
        JObj [(''outputType'', JStr ''svf''), (''progress'', JStr ''complete''),
              (''status'', JStr ''success''), (''children'', JNum ''1'')]])])
   = Return (ErrorValue TypeError)"
  "parseManifest
     (JObj [(''derivatives'', JArr [
        JObj [(''outputType'', JStr ''svf''), (''progress'', JStr ''complete''),
              (''status'', JStr ''success''),
              (''children'', JArr [JObj [(''role'', JObj [(''toString'', JNum ''1'')])]])]])])
   = Return (ErrorValue TypeError)"
  by (simp_all add: parseManifest_def parseManifest_try_def derivativeIsOk_def)

text \<open>
  C10, as stated: whenever two derivatives pass the filter, \<open>cadFileName\<close> would hold
  the name of the last of them. Here two derivatives pass and the second has a \<open>null\<close>
  child: reading its role throws, and the result is the \<open>TypeError\<close>, with no
  \<open>cadFileName\<close> at all.
\<close>

theorem parseManifest_null_child_counterexample:
  "parseManifest
     (JObj [(''derivatives'', JArr [
        JObj [(''outputType'', JStr ''svf''), (''progress'', JStr ''complete''),
              (''status'', JStr ''success''), (''name'', JStr ''a.rvt''),
              (''children'', JArr [
                 JObj [(''role'', JStr ''Autodesk.CloudPlatform.PropertyDatabase''),
                       (''urn'', JStr ''U1'')]])],
        JObj [(''outputType'', JStr ''svf''), (''progress'', JStr ''complete''),
              (''status'', JStr ''success''), (''name'', JStr ''b.rvt''),
              (''children'', JArr [JNull])]])])
   = Return (ErrorValue TypeError)"
  by (simp add: parseManifest_def parseManifest_try_def derivativeIsOk_def)

text \<open>
  C10, amended: no field is reset between derivatives. Whenever \<open>parseManifest\<close>
  returns a summary, and \<open>last_ok\<close> is the last derivative that passes the filter,
  \<open>cadFileName\<close> is the name of \<open>last_ok\<close>, while \<open>sqLiteUrn\<close> is still what the
  derivatives before \<open>last_ok\<close> left (\<open>s1\<close>) when no child of \<open>last_ok\<close> has the
  property-database role, and \<open>propertiesUrn\<close> is still the one of \<open>s1\<close> when no child
  has the model-data role.
\<close>

theorem parseManifest_fields_not_reset:
  assumes m: "member manifest ''derivatives'' = JArr (earlier @ last_ok # later)"
    and ret: "parseManifest manifest = Return (Summary s)"
    and ok: "derivativeIsOk last_ok = Return ok" "truthy ok"
    and later: "\<forall>x \<in> set later. \<forall>v. derivativeIsOk x = Return v \<longrightarrow> \<not> truthy v"
  shows "cadFileName s = member last_ok ''name'' \<and>
         (\<exists>s1 children.
            derivatives_loop earlier
              \<lparr>cadFileName = JStr [], sqLiteUrn = JStr [], propertiesUrn = JStr []\<rparr> = Return s1 \<and>
            iterate (member last_ok ''children'') = Return children \<and>
            ((\<forall>c \<in> set children.
                loose_eq_str (member c ''role'') ''Autodesk.CloudPlatform.PropertyDatabase''
                  \<noteq> Return True) \<longrightarrow> sqLiteUrn s = sqLiteUrn s1) \<and>
            ((\<forall>c \<in> set children.
                loose_eq_str (member c ''role'') ''Autodesk.AEC.ModelData''
                  \<noteq> Return True) \<longrightarrow> propertiesUrn s = propertiesUrn s1))"
proof -
  from last_passing_run [OF m ret ok later] obtain s1 children sq pr
    where s1: "derivatives_loop earlier
          \<lparr>cadFileName = JStr [], sqLiteUrn = JStr [], propertiesUrn = JStr []\<rparr> = Return s1"
      and it: "iterate (member last_ok ''children'') = Return children"
      and ch: "children_loop children (sqLiteUrn s1, propertiesUrn s1) = Return (sq, pr)"
      and s: "s = \<lparr>cadFileName = member last_ok ''name'', sqLiteUrn = sq, propertiesUrn = pr\<rparr>"
    by blast
  from children_loop_keeps [OF ch] s s1 it show ?thesis
    by auto
qed

theorem parseManifest_fields_not_reset_witness:
  "parseManifest
     (JObj [(''derivatives'', JArr [
        JObj [(''outputType'', JStr ''svf''), (''progress'', JStr ''complete''),
              (''status'', JStr ''success''), (''name'', JStr ''a.rvt''),
              (''children'', JArr [
                 JObj [(''role'', JStr ''Autodesk.CloudPlatform.PropertyDatabase''),
                       (''urn'', JStr ''U1'')],
                 JObj [(''role'', JStr ''Autodesk.AEC.ModelData''),
                       (''urn'', JStr ''U2'')]])],
        JObj [(''outputType'', JStr ''svf''), (''progress'', JStr ''complete''),
              (''status'', JStr ''success''), (''name'', JStr ''b.rvt''),
              (''children'', JArr [
                 JObj [(''role'', JStr ''graphics''), (''urn'', JStr ''U3'')]])]])])
   = Return (Summary \<lparr>cadFileName = JStr ''b.rvt'',
                       sqLiteUrn = JStr ''U1'', propertiesUrn = JStr ''U2''\<rparr>) \<and>
   cadFileName \<lparr>cadFileName = JStr ''b.rvt'',
                sqLiteUrn = JStr ''U1'', propertiesUrn = JStr ''U2''\<rparr>
     = member (JObj [(''outputType'', JStr ''svf''), (''progress'', JStr ''complete''),
                     (''status'', JStr ''success''), (''name'', JStr ''b.rvt''),
                     (''children'', JArr [
                        JObj [(''role'', JStr ''graphics''), (''urn'', JStr ''U3'')]])]) ''name''"
  (is "parseManifest (JObj [(_, JArr [?d1, ?d2])]) = _ \<and> _")
proof -
  let ?m = "JObj [(''derivatives'', JArr [?d1, ?d2])]"
  let ?c = "JObj [(''role'', JStr ''graphics''), (''urn'', JStr ''U3'')]"
  let ?s = "\<lparr>cadFileName = JStr ''b.rvt'', sqLiteUrn = JStr ''U1'', propertiesUrn = JStr ''U2''\<rparr>"
  have m: "member ?m ''derivatives'' = JArr ([?d1] @ ?d2 # [])"
    by simp
  have ret: "parseManifest ?m = Return (Summary ?s)"
    by (simp add: parseManifest_def parseManifest_try_def derivativeIsOk_def)
  have ok: "derivativeIsOk ?d2 = Return (JArr [?c])" "truthy (JArr [?c])"
    by (simp_all add: derivativeIsOk_def)
  have later: "\<forall>x \<in> set []. \<forall>v. derivativeIsOk x = Return v \<longrightarrow> \<not> truthy v"
    by simp
  note inst = parseManifest_fields_not_reset [OF m ret ok later]
  have "cadFileName ?s = member ?d2 ''name''"
    by (rule conjunct1 [OF inst])
  with ret show ?thesis by blast
qed

section \<open>Properties of the status route\<close>

text \<open>The loop over the children never changes \<open>messages\<close>.\<close>

lemma status_children_loop_keeps_messages:
  "status_children_loop children messages = Return messages' \<Longrightarrow> messages' = messages"
  by (induction children) (simp_all add: Let_def split: if_splits)

text \<open>
  C4. The messages of the children are missing from the status response: for a manifest
  whose derivative has the message \<open>top\<close> and one child with the message \<open>child\<close>,
  the route answers with the messages \<open>[top]\<close>, not \<open>[top, child]\<close>.
\<close>

theorem status_route_child_messages_dropped:
  "status_route
     (\<lambda>urn. Resolved (JObj [
        (''status'', JStr ''success''), (''progress'', JStr ''complete''),
        (''derivatives'', JArr [
           JObj [(''messages'', JArr [JStr ''top'']),
                 (''children'', JArr [JObj [(''messages'', JArr [JStr ''child''])]])]])]))
     ''dXJu''
   = Json (JObj [(''status'', JStr ''success''), (''progress'', JStr ''complete''),
                 (''messages'', JArr [JStr ''top''])])"
  by (simp add: status_route_def getManifest_def status_messages_def or_empty_def)

text \<open>
  C7. When the remote service answers the manifest request of a job identifier with 404,
  the status route responds \<open>{status: 'n/a'}\<close>; it does not hand an error on.
\<close>

theorem status_route_not_found:
  "api urn = Rejected (Some 404) \<Longrightarrow>
   status_route api urn = Json (JObj [(''status'', JStr ''n/a'')])"
  by (simp add: status_route_def getManifest_def)

theorem status_route_not_found_witness:
  "(\<lambda>urn. Rejected (Some 404)) ''dXJu'' = Rejected (Some 404) \<and>
   status_route (\<lambda>urn. Rejected (Some 404)) ''dXJu'' = Json (JObj [(''status'', JStr ''n/a'')])"
  using status_route_not_found [of "\<lambda>urn. Rejected (Some 404)" "''dXJu''"]
  by simp

section \<open>Properties of translateObject\<close>

text \<open>
  C8. The job that \<open>translateObject\<close> sends always asks for the output format
  \<open>svf2\<close> with the views \<open>2d\<close> and \<open>3d\<close>. Its input carries \<open>compressedUrn\<close> and
  \<open>rootFilename\<close> exactly when the root file name is a non-empty string; with the empty
  string, or with no root file name at all, it carries neither.
\<close>

theorem translateObject_job_shape:
  "member (translateObject_job urn rootFilename) ''output'' =
      JObj [(''formats'',
             JArr [JObj [(''type'', JStr ''svf2''),
                         (''views'', JArr [JStr ''2d'', JStr ''3d''])]])] \<and>
   member (member (translateObject_job urn (JStr name)) ''input'') ''compressedUrn'' =
      (if name \<noteq> [] then JBool True else JUndefined) \<and>
   member (member (translateObject_job urn (JStr name)) ''input'') ''rootFilename'' =
      (if name \<noteq> [] then JStr name else JUndefined) \<and>
   member (member (translateObject_job urn JUndefined) ''input'') ''compressedUrn'' = JUndefined \<and>
   member (member (translateObject_job urn JUndefined) ''input'') ''rootFilename'' = JUndefined"
  by (simp add: translateObject_job_def)

section \<open>Properties of urnify\<close>

lemma distinct_base64_alphabet: "distinct base64_alphabet"
  by (simp add: base64_alphabet_def)

lemma length_base64_alphabet: "length base64_alphabet = 64"
  by (simp add: base64_alphabet_def)

lemma index_of_nth: "distinct xs \<Longrightarrow> n < length xs \<Longrightarrow> index_of (xs ! n) xs = n"
proof (induction xs arbitrary: n)
  case Nil
  then show ?case by simp
next
  case (Cons x xs)
  then show ?case by (cases n) auto
qed

lemma base64_value_char: "n < 64 \<Longrightarrow> base64_value (base64_char n) = n"
  by (simp add: base64_value_def base64_char_def index_of_nth
      distinct_base64_alphabet length_base64_alphabet)

lemma base64_char_not_pad: "n < 64 \<Longrightarrow> base64_char n \<noteq> CHR ''=''"
proof -
  assume "n < 64"
  then have "base64_char n \<in> set base64_alphabet"
    by (simp add: base64_char_def length_base64_alphabet)
  moreover have "CHR ''='' \<notin> set base64_alphabet"
    by (simp add: base64_alphabet_def)
  ultimately show ?thesis by auto
qed

lemma sextet_bounds:
  fixes x y z :: nat
  shows "x < 256 \<Longrightarrow> x div 4 < 64"
    and "x mod 4 * 16 < 64"
    and "y < 256 \<Longrightarrow> x mod 4 * 16 + y div 16 < 64"
    and "y mod 16 * 4 < 64"
    and "z < 256 \<Longrightarrow> y mod 16 * 4 + z div 64 < 64"
    and "z mod 64 < 64"
proof -
  have m: "x mod 4 < 4" "y mod 16 < 16" by simp_all
  show "x < 256 \<Longrightarrow> x div 4 < 64" by simp
  show "x mod 4 * 16 < 64" using m by linarith
  show "x mod 4 * 16 + y div 16 < 64" if "y < 256"
  proof -
    from that have "y div 16 < 16" by simp
    with m show ?thesis by linarith
  qed
  show "y mod 16 * 4 < 64" using m by linarith
  show "y mod 16 * 4 + z div 64 < 64" if "z < 256"
  proof -
    from that have "z div 64 < 4" by simp
    with m show ?thesis by linarith
  qed
  show "z mod 64 < 64" by simp
qed

lemma sextets_to_bytes:
  fixes x y z :: nat
  shows "y < 256 \<Longrightarrow> x div 4 * 4 + (x mod 4 * 16 + y div 16) div 16 = x"
    and "y < 256 \<Longrightarrow> z < 256 \<Longrightarrow>
      (x mod 4 * 16 + y div 16) mod 16 * 16 + (y mod 16 * 4 + z div 64) div 4 = y"
    and "z < 256 \<Longrightarrow> (y mod 16 * 4 + z div 64) mod 4 * 64 + z mod 64 = z"
    and "x div 4 * 4 + (x mod 4 * 16) div 16 = x"
    and "y < 256 \<Longrightarrow> (x mod 4 * 16 + y div 16) mod 16 * 16 + (y mod 16 * 4) div 4 = y"
proof -
  have hi: "(x mod 4 * 16 + y div 16) div 16 = x mod 4"
    "(x mod 4 * 16 + y div 16) mod 16 = y div 16" if "y < 256"
  proof -
    from that have "y div 16 < 16" by simp
    then show "(x mod 4 * 16 + y div 16) div 16 = x mod 4"
      "(x mod 4 * 16 + y div 16) mod 16 = y div 16"
      by simp_all
  qed
  have lo: "(y mod 16 * 4 + z div 64) div 4 = y mod 16"
    "(y mod 16 * 4 + z div 64) mod 4 = z div 64" if "z < 256"
  proof -
    from that have "z div 64 < 4" by simp
    then show "(y mod 16 * 4 + z div 64) div 4 = y mod 16"
      "(y mod 16 * 4 + z div 64) mod 4 = z div 64"
      by simp_all
  qed
  show "x div 4 * 4 + (x mod 4 * 16 + y div 16) div 16 = x" if "y < 256"
    using that by (simp add: hi)
  show "(x mod 4 * 16 + y div 16) mod 16 * 16 + (y mod 16 * 4 + z div 64) div 4 = y"
    if "y < 256" "z < 256"
    using that by (simp add: hi lo)
  show "(y mod 16 * 4 + z div 64) mod 4 * 64 + z mod 64 = z" if "z < 256"
    using that by (simp add: lo)
  show "x div 4 * 4 + (x mod 4 * 16) div 16 = x"
    by simp
  show "(x mod 4 * 16 + y div 16) mod 16 * 16 + (y mod 16 * 4) div 4 = y" if "y < 256"
    using that by (simp add: hi)
qed

lemma unpadded_simps:
  "filter (\<lambda>c. c \<noteq> CHR ''='') (base64 []) = []"
  "filter (\<lambda>c. c \<noteq> CHR ''='') (base64 [a]) =
     [base64_char (of_char a div 4), base64_char (of_char a mod 4 * 16)]"
  "filter (\<lambda>c. c \<noteq> CHR ''='') (base64 [a, b]) =
     [base64_char (of_char a div 4), base64_char (of_char a mod 4 * 16 + of_char b div 16),
      base64_char (of_char b mod 16 * 4)]"
  "filter (\<lambda>c. c \<noteq> CHR ''='') (base64 (a # b # c # rest)) =
     [base64_char (of_char a div 4), base64_char (of_char a mod 4 * 16 + of_char b div 16),
      base64_char (of_char b mod 16 * 4 + of_char c div 64), base64_char (of_char c mod 64)]
     @ filter (\<lambda>c. c \<noteq> CHR ''='') (base64 rest)"
  by (simp_all add: Let_def base64_char_not_pad sextet_bounds)

lemma unbase64_base64:
  "unbase64 (filter (\<lambda>c. c \<noteq> CHR ''='') (base64 bytes)) = bytes"
proof (induction bytes rule: base64.induct)
  case 1
  show ?case by (simp add: unpadded_simps)
next
  case (2 a)
  show ?case
    by (simp only: unpadded_simps unbase64.simps Let_def base64_value_char sextet_bounds
        sextets_to_bytes nat_of_char_less_256 char_of_char)
next
  case (3 a b)
  show ?case
    by (simp only: unpadded_simps unbase64.simps Let_def base64_value_char sextet_bounds
        sextets_to_bytes nat_of_char_less_256 char_of_char)
next
  case (4 a b c rest)
  then show ?case
    by (simp only: unpadded_simps unbase64.simps Let_def base64_value_char sextet_bounds
        sextets_to_bytes nat_of_char_less_256 char_of_char append.simps)
qed

lemma three_parts: "(n::nat) div 4096 * 4096 + n div 64 mod 64 * 64 + n mod 64 = n"
proof -
  have a: "n div 4096 = n div 64 div 64"
    by (simp add: div_mult2_eq)
  have b: "n div 64 div 64 * 64 + n div 64 mod 64 = n div 64"
    by (rule div_mult_mod_eq)
  have c: "n div 64 * 64 + n mod 64 = n"
    by (rule div_mult_mod_eq)
  from b c show ?thesis
    unfolding a by linarith
qed

lemma four_parts:
  "(n::nat) div 262144 * 262144 + n div 4096 mod 64 * 4096 + n div 64 mod 64 * 64 + n mod 64 = n"
proof -
  have a: "n div 262144 = n div 4096 div 64"
    by (simp add: div_mult2_eq)
  have b: "n div 4096 div 64 * 64 + n div 4096 mod 64 = n div 4096"
    by (rule div_mult_mod_eq)
  from b three_parts [of n] show ?thesis
    unfolding a by linarith
qed

lemma utf8_decode_bytes:
  assumes "cp < 0x110000"
  shows "utf8_decode (utf8_bytes cp @ rest) = cp # utf8_decode rest"
proof -
  consider "cp < 0x80" | "0x80 \<le> cp" "cp < 0x800" | "0x800 \<le> cp" "cp < 0x10000"
    | "0x10000 \<le> cp"
    by linarith
  then show ?thesis
  proof cases
    case 1
    then show ?thesis by (simp add: utf8_bytes_def)
  next
    case 2
    then have "cp div 64 < 32" by simp
    with 2 show ?thesis by (simp add: utf8_bytes_def)
  next
    case 3
    then have "cp div 4096 < 16" by simp
    with 3 show ?thesis by (simp add: utf8_bytes_def three_parts)
  next
    case 4
    with assms show ?thesis by (simp add: utf8_bytes_def four_parts)
  qed
qed

lemma utf8_decode_concat:
  "\<forall>cp \<in> set cps. cp < 0x110000 \<Longrightarrow> utf8_decode (concat (map utf8_bytes cps)) = cps"
  by (induction cps) (simp_all add: utf8_decode_bytes)

lemma continuation_less:
  "(x::nat) mod 64 < 128"
  by (rule less_trans [OF mod_less_divisor]) simp_all

lemma utf8_bytes_less:
  assumes "cp < 0x110000"
  shows "\<forall>b \<in> set (utf8_bytes cp). b < 256"
proof -
  consider "cp < 0x80" | "0x80 \<le> cp" "cp < 0x800" | "0x800 \<le> cp" "cp < 0x10000"
    | "0x10000 \<le> cp"
    by linarith
  then show ?thesis
  proof cases
    case 1
    then show ?thesis by (simp add: utf8_bytes_def)
  next
    case 2
    then have "cp div 64 < 32" by simp
    with 2 show ?thesis by (simp add: utf8_bytes_def continuation_less)
  next
    case 3
    then have "cp div 4096 < 16" by simp
    with 3 show ?thesis by (simp add: utf8_bytes_def continuation_less)
  next
    case 4
    from assms have "cp div 262144 < 5" by simp
    with 4 show ?thesis by (simp add: utf8_bytes_def continuation_less)
  qed
qed

lemma of_char_char_of_bytes:
  "\<forall>b \<in> set bs. b < 256 \<Longrightarrow> map of_char (map char_of bs) = (bs :: nat list)"
  by (induction bs) simp_all

lemma code_unit_less: "unat (u :: 16 word) < 0x10000"
  using unsigned_less [of u, where 'a = nat] by simp

lemma lone_code_point_less: "lone_code_point u < 0x10000"
  using code_unit_less [of u] by (simp add: lone_code_point_def)

lemma pair_code_point:
  assumes "is_high_surrogate u" "is_low_surrogate v"
  shows "0x10000 + (unat u - 0xD800) * 0x400 + (unat v - 0xDC00) < 0x110000"
    and "code_units ((0x10000 + (unat u - 0xD800) * 0x400 + (unat v - 0xDC00)) # cps)
           = u # v # code_units cps"
proof -
  define h where "h = unat u - 0xD800"
  define l where "l = unat v - 0xDC00"
  from assms have hl: "unat u = 0xD800 + h" "unat v = 0xDC00 + l" "h < 0x400" "l < 0x400"
    by (auto simp add: h_def l_def is_high_surrogate_def is_low_surrogate_def)
  have cp: "0x10000 + (unat u - 0xD800) * 0x400 + (unat v - 0xDC00) = 0x10000 + (h * 0x400 + l)"
    by (simp add: h_def l_def)
  from hl(3,4) show "0x10000 + (unat u - 0xD800) * 0x400 + (unat v - 0xDC00) < 0x110000"
    unfolding cp by linarith
  have "word_of_nat (unat u) = u" "word_of_nat (unat v) = v"
    by simp_all
  then have "word_of_nat (0xD800 + h) = u" "word_of_nat (0xDC00 + l) = v"
    by (simp_all only: hl(1,2))
  with hl(4) show "code_units ((0x10000 + (unat u - 0xD800) * 0x400 + (unat v - 0xDC00)) # cps)
           = u # v # code_units cps"
    unfolding cp by simp
qed

lemma code_points_less: "\<forall>cp \<in> set (code_points s). cp < 0x110000"
proof (induction s rule: code_points.induct)
  case 1
  show ?case by simp
next
  case (2 u)
  from lone_code_point_less [of u] show ?case by simp
next
  case (3 u v rest)
  show ?case
  proof (cases "is_high_surrogate u \<and> is_low_surrogate v")
    case True
    with pair_code_point(1) [of u v] "3.IH"(1) show ?thesis by simp
  next
    case False
    with lone_code_point_less [of u] "3.IH"(2) show ?thesis by auto
  qed
qed

lemma code_units_code_points:
  "well_formed s \<Longrightarrow> code_units (code_points s) = s"
proof (induction s rule: code_points.induct)
  case 1
  show ?case by simp
next
  case (2 u)
  with code_unit_less [of u] show ?case by (simp add: lone_code_point_def)
next
  case (3 u v rest)
  show ?case
  proof (cases "is_high_surrogate u \<and> is_low_surrogate v")
    case True
    with "3.prems" have "well_formed rest" by simp
    with "3.IH"(1) True have "code_units (code_points rest) = rest" by simp
    with True pair_code_point(2) [of u v "code_points rest"] show ?thesis by simp
  next
    case False
    with "3.prems" have wf: "\<not> is_high_surrogate u" "\<not> is_low_surrogate u" "well_formed (v # rest)"
      by simp_all
    with "3.IH"(2) False have "code_units (code_points (v # rest)) = v # rest" by simp
    with False wf code_unit_less [of u] show ?thesis by (simp add: lone_code_point_def)
  qed
qed

lemma utf8_bytes_all_less:
  "\<forall>b \<in> set (concat (map utf8_bytes (code_points s))). b < 256"
  using code_points_less [of s] utf8_bytes_less by auto

lemma urnify_read_back:
  assumes "well_formed s"
  shows "code_units (utf8_decode (map of_char (unbase64 (urnify s)))) = s"
proof -
  have "unbase64 (urnify s) = map char_of (concat (map utf8_bytes (code_points s)))"
    by (simp add: urnify_def utf8_def unbase64_base64)
  then have "map of_char (unbase64 (urnify s)) = concat (map utf8_bytes (code_points s))"
    by (simp only: of_char_char_of_bytes [OF utf8_bytes_all_less])
  then have "utf8_decode (map of_char (unbase64 (urnify s))) = code_points s"
    by (simp only: utf8_decode_concat [OF code_points_less])
  with assms show ?thesis
    by (simp only: code_units_code_points)
qed

text \<open>
  C5, as stated: two different identifiers would never get the same urn. A high surrogate
  on its own and the replacement character \<open>U+FFFD\<close> are two different strings, and
  \<open>Buffer.from\<close> writes both as the bytes \<open>EF BF BD\<close>: they get the same urn.
\<close>

theorem urnify_collision_counterexample:
  "[0xD800] \<noteq> [0xFFFD :: 16 word] \<and> urnify [0xD800] = urnify [0xFFFD]"
  by (simp add: urnify_def utf8_def utf8_bytes_def lone_code_point_def is_high_surrogate_def
      is_low_surrogate_def)

text \<open>
  C5, amended: \<open>urnify\<close> is a function of the identifier; on well-formed identifiers
  (no surrogate without its partner) it is injective, so two different ones never get
  the same urn; and for every identifier, well formed or not, the urn contains no \<open>=\<close>.
\<close>

theorem urnify_injective_on_well_formed:
  "(well_formed a \<and> well_formed b \<and> a \<noteq> b \<longrightarrow> urnify a \<noteq> urnify b) \<and>
   CHR ''='' \<notin> set (urnify a)"
proof
  show "well_formed a \<and> well_formed b \<and> a \<noteq> b \<longrightarrow> urnify a \<noteq> urnify b"
  proof (intro impI notI, elim conjE)
    assume wf: "well_formed a" "well_formed b" and ne: "a \<noteq> b"
    assume "urnify a = urnify b"
    then have "code_units (utf8_decode (map of_char (unbase64 (urnify a))))
        = code_units (utf8_decode (map of_char (unbase64 (urnify b))))"
      by simp
    then have "a = b"
      by (simp only: urnify_read_back [OF wf(1)] urnify_read_back [OF wf(2)])
    with ne show False by simp
  qed
  show "CHR ''='' \<notin> set (urnify a)"
    by (simp add: urnify_def)
qed

theorem urnify_injective_on_well_formed_witness:
  "well_formed [0x75, 0x72, 0x6E, 0x3A, 0xD83D, 0xDE00] \<and>
   well_formed [0x75, 0x72, 0x6E, 0x3A, 0xE9] \<and>
   urnify [0x75, 0x72, 0x6E, 0x3A, 0xD83D, 0xDE00] \<noteq> urnify [0x75, 0x72, 0x6E, 0x3A, 0xE9] \<and>
   CHR ''='' \<notin> set (urnify [0x75, 0x72, 0x6E, 0x3A, 0xD83D, 0xDE00])"
proof -
  let ?a = "[0x75, 0x72, 0x6E, 0x3A, 0xD83D, 0xDE00] :: 16 word list"
  let ?b = "[0x75, 0x72, 0x6E, 0x3A, 0xE9] :: 16 word list"
  have wf: "well_formed ?a" "well_formed ?b"
    by (simp_all add: is_high_surrogate_def is_low_surrogate_def)
  have ne: "?a \<noteq> ?b"
    by simp
  from urnify_injective_on_well_formed [of ?a ?b] wf ne show ?thesis
    by blast
qed

section \<open>Properties of createResultDirectory\<close>

lemma basename_no_slash: "CHR ''/'' \<notin> set (basename p)"
  using set_takeWhileD [of "CHR ''/''" "\<lambda>c. c \<noteq> CHR ''/''"]
  by (auto simp add: basename_def)

lemma split_slash_not_Nil: "split_slash p \<noteq> []"
  by (induction p) (auto split: list.splits)

lemma split_slash_no_slash: "CHR ''/'' \<notin> set p \<Longrightarrow> split_slash p = [p]"
  by (induction p) auto

lemma split_slash_append:
  "split_slash (a @ CHR ''/'' # b) = split_slash a @ split_slash b"
proof (induction a)
  case Nil
  show ?case by simp
next
  case (Cons c a)
  obtain seg segs where sp: "split_slash a = seg # segs"
    using split_slash_not_Nil [of a] by (cases "split_slash a") auto
  with Cons show ?case by simp
qed

lemma split_slash_segments: "s \<in> set (split_slash p) \<Longrightarrow> CHR ''/'' \<notin> set s"
proof (induction p arbitrary: s)
  case Nil
  then show ?case by simp
next
  case (Cons c p)
  obtain seg segs where sp: "split_slash p = seg # segs"
    using split_slash_not_Nil [of p] by (cases "split_slash p") auto
  from Cons.IH [unfolded sp] have "CHR ''/'' \<notin> set seg" "\<forall>t \<in> set segs. CHR ''/'' \<notin> set t"
    by simp_all
  with Cons.prems sp show ?case
    by (auto split: if_splits)
qed

lemma join_slash_snoc:
  "join_slash (segs @ [n]) = (if segs = [] then n else join_slash segs @ ''/'' @ n)"
  by (induction segs rule: join_slash.induct) simp_all

lemma split_join_slash:
  "segs \<noteq> [] \<Longrightarrow> \<forall>s \<in> set segs. CHR ''/'' \<notin> set s \<Longrightarrow>
   split_slash (join_slash segs) = segs"
proof (induction segs rule: join_slash.induct)
  case 1
  then show ?case by simp
next
  case (2 s)
  then show ?case by (simp add: split_slash_no_slash)
next
  case (3 s t ss)
  then have "split_slash (join_slash (t # ss)) = t # ss" by simp
  moreover have "split_slash s = [s]"
    using 3(3) by (simp add: split_slash_no_slash)
  ultimately show ?case
    using split_slash_append [of s "join_slash (t # ss)"] by simp
qed

lemma normalize_segments_append:
  "normalize_segments a (xs @ ys) res = normalize_segments a ys (normalize_segments a xs res)"
proof (induction xs arbitrary: res)
  case Nil
  show ?case by simp
next
  case (Cons x xs)
  then show ?case by (cases a) simp_all
qed

lemma normalize_segments_plain:
  "\<forall>s \<in> set xs. plain_segment s \<Longrightarrow> normalize_segments a xs res = res @ xs"
  by (induction xs arbitrary: res) (simp_all add: plain_segment_def)

lemma normalize_segments_invariant:
  "\<forall>s \<in> set res. plain_segment s \<Longrightarrow> \<forall>s \<in> set xs. CHR ''/'' \<notin> set s \<Longrightarrow>
   \<forall>s \<in> set (normalize_segments False xs res). plain_segment s"
proof (induction xs arbitrary: res)
  case Nil
  then show ?case by simp
next
  case (Cons seg segs)
  have rest: "\<forall>s \<in> set segs. CHR ''/'' \<notin> set s"
    using Cons.prems(2) by simp
  have bl: "\<forall>s \<in> set (butlast res). plain_segment s"
    using Cons.prems(1) by (auto dest: in_set_butlastD)
  show ?case
  proof (cases "seg = [] \<or> seg = ''.''")
    case True
    with Cons.IH [OF Cons.prems(1) rest] show ?thesis by auto
  next
    case nd: False
    show ?thesis
    proof (cases "seg = ''..''")
      case True
      with Cons.IH [OF Cons.prems(1) rest] Cons.IH [OF bl rest] show ?thesis by simp
    next
      case False
      with nd Cons.prems(2) have "plain_segment seg" by (simp add: plain_segment_def)
      with Cons.prems(1) have "\<forall>s \<in> set (res @ [seg]). plain_segment s" by simp
      from Cons.IH [OF this rest] nd False show ?thesis by simp
    qed
  qed
qed

lemma plain_segment_no_slash: "plain_segment s \<Longrightarrow> CHR ''/'' \<notin> set s"
  by (simp add: plain_segment_def)

lemma join_slash_eq_Nil: "join_slash (segs @ [n]) = [] \<Longrightarrow> n = []"
  by (simp add: join_slash_snoc split: if_splits)

lemma normalize_absolute:
  assumes "p \<noteq> []" "hd p = CHR ''/''" "last p \<noteq> CHR ''/''"
    and "normalize_segments False (split_slash p) [] = segs" "join_slash segs \<noteq> []"
  shows "normalize p = CHR ''/'' # join_slash segs"
  using assms by (simp add: normalize_def Let_def)

lemma base_shape:
  assumes "dirname \<noteq> []" "hd dirname = CHR ''/''"
  shows "\<exists>segs. path_join [dirname, ''..'', ''results''] = CHR ''/'' # join_slash segs \<and>
           segs \<noteq> [] \<and> (\<forall>s \<in> set segs. plain_segment s)"
proof -
  define p where "p = dirname @ CHR ''/'' # ''../results''"
  define r where "r = normalize_segments False (split_slash dirname) []"
  define segs where "segs = butlast r @ [''results'']"
  have pj: "path_join [dirname, ''..'', ''results''] = normalize p"
    using assms(1) by (simp add: path_join_def p_def)
  have r_plain: "\<forall>s \<in> set r. plain_segment s"
    unfolding r_def
    by (rule normalize_segments_invariant) (auto dest: split_slash_segments)
  have last_r: "r \<noteq> [] \<Longrightarrow> last r \<noteq> ''..''"
    using r_plain last_in_set [of r] by (auto simp add: plain_segment_def)
  have sp: "split_slash p = split_slash dirname @ [''..'', ''results'']"
    unfolding p_def by (simp add: split_slash_append)
  have ns: "normalize_segments False (split_slash p) [] = segs"
    unfolding sp normalize_segments_append r_def [symmetric] segs_def
    using last_r by (cases "r = []") simp_all
  have segs_plain: "\<forall>s \<in> set segs. plain_segment s"
    using r_plain by (auto simp add: segs_def plain_segment_def dest: in_set_butlastD)
  have ne: "join_slash segs \<noteq> []"
    using join_slash_eq_Nil [of "butlast r" "''results''"] by (auto simp add: segs_def)
  have "p \<noteq> []" "hd p = CHR ''/''" "last p \<noteq> CHR ''/''"
    using assms by (simp_all add: p_def)
  from normalize_absolute [OF this ns ne] pj
  have "path_join [dirname, ''..'', ''results''] = CHR ''/'' # join_slash segs"
    by simp
  moreover have "segs \<noteq> []" by (simp add: segs_def)
  ultimately show ?thesis using segs_plain by blast
qed

lemma join_under_base:
  assumes base: "base = CHR ''/'' # join_slash segs"
    and segs: "segs \<noteq> []" "\<forall>s \<in> set segs. plain_segment s"
    and n: "plain_segment n"
  shows "path_join [base, n] = base @ ''/'' @ n"
proof -
  define p where "p = base @ CHR ''/'' # n"
  have n_ne: "n \<noteq> []" and n_slash: "CHR ''/'' \<notin> set n"
    using n by (simp_all add: plain_segment_def)
  have pj: "path_join [base, n] = normalize p"
    using n_ne by (simp add: path_join_def p_def base)
  have no_slash: "\<forall>s \<in> set segs. CHR ''/'' \<notin> set s"
    using segs(2) by (simp add: plain_segment_def)
  have "split_slash base = [] # segs"
    unfolding base using split_join_slash [OF segs(1) no_slash] by simp
  then have sp: "split_slash p = [] # segs @ [n]"
    unfolding p_def by (simp add: split_slash_append split_slash_no_slash [OF n_slash])
  have "\<forall>s \<in> set (segs @ [n]). plain_segment s"
    using segs(2) n by simp
  from normalize_segments_plain [OF this, of False "[]"]
  have ns: "normalize_segments False (split_slash p) [] = segs @ [n]"
    unfolding sp by simp
  have js: "join_slash (segs @ [n]) = join_slash segs @ ''/'' @ n"
    using segs(1) by (simp add: join_slash_snoc)
  then have ne: "join_slash (segs @ [n]) \<noteq> []"
    by simp
  have "last p = last n"
    using n_ne by (simp add: p_def)
  moreover have "last n \<in> set n"
    using n_ne by simp
  ultimately have "last p \<noteq> CHR ''/''"
    using n_slash by auto
  moreover have "p \<noteq> []" "hd p = CHR ''/''"
    by (simp_all add: p_def base)
  ultimately have "normalize p = CHR ''/'' # join_slash (segs @ [n])"
    using normalize_absolute [OF _ _ _ ns ne] by simp
  then show ?thesis
    unfolding pj js by (simp add: base)
qed

lemma createDirectory_cases:
  "createDirectory f p =
     (if p \<in> existing f then Return (True, f)
      else if p \<in> mkdir_fails f then Throw SystemError
      else Return (True, f\<lparr>existing := insert p (existing f)\<rparr>))"
  by (simp add: createDirectory_def existsSync_def mkdirSync_def)

lemma createDirectory_outcome:
  "createDirectory f p = Throw SystemError \<and> p \<in> mkdir_fails f \<or>
   (\<exists>f'. createDirectory f p = Return (True, f') \<and> p \<in> existing f' \<and>
      mkdir_fails f' = mkdir_fails f)"
  by (simp add: createDirectory_cases)

text \<open>
  C6, as stated: for every non-empty name the directory returned would lie directly under
  the base results directory and be named by the basename. For the name \<open>..\<close> the
  basename is \<open>..\<close> itself, and joining it to the base gives the parent of the base:
  with \<open>__dirname = /app/routes\<close> the function returns \<open>/app\<close>, not a directory under
  \<open>/app/results\<close>.
\<close>

theorem createResultDirectory_dotdot_counterexample:
  "createResultDirectory ''/app/routes''
     \<lparr>existing = {''/app'', ''/app/routes''}, mkdir_fails = {}\<rparr> (JStr ''..'')
   = Return (Path ''/app'',
       \<lparr>existing = {''/app/results'', ''/app'', ''/app/routes''}, mkdir_fails = {}\<rparr>) \<and>
   path_join [''/app/routes'', ''..'', ''results''] = ''/app/results''"
  by (simp add: createResultDirectory_def createDirectory_cases path_join_def normalize_def
      basename_def Let_def)

text \<open>
  C6, amended: the empty name gives the error \<open>No CAD file name provided.\<close>; and for a
  name whose basename is not empty, not \<open>.\<close> and not \<open>..\<close> (with \<open>__dirname\<close> an
  absolute path), the basename has no slash, and the function either fails because
  \<open>mkdirSync\<close> throws, or returns the base results directory followed by a slash and
  the basename, a path that exists afterwards. It does not fail when \<open>mkdirSync\<close>
  cannot.
\<close>

theorem createResultDirectory_under_base:
  assumes "dirname \<noteq> []" "hd dirname = CHR ''/''"
    and "basename name \<noteq> []" "basename name \<noteq> ''.''" "basename name \<noteq> ''..''"
  shows "createResultDirectory dirname f (JStr []) =
           Return (DirectoryError (Error ''No CAD file name provided.''), f) \<and>
         CHR ''/'' \<notin> set (basename name) \<and>
         (createResultDirectory dirname f (JStr name) = Throw SystemError \<or>
          (\<exists>f'. createResultDirectory dirname f (JStr name) =
                  Return (Path (path_join [dirname, ''..'', ''results'']
                                @ ''/'' @ basename name), f') \<and>
                path_join [dirname, ''..'', ''results''] @ ''/'' @ basename name
                  \<in> existing f')) \<and>
         (mkdir_fails f = {} \<longrightarrow>
            createResultDirectory dirname f (JStr name) \<noteq> Throw SystemError)"
proof -
  define base where "base = path_join [dirname, ''..'', ''results'']"
  have plain: "plain_segment (basename name)"
    using assms(3-5) basename_no_slash [of name] by (simp add: plain_segment_def)
  from base_shape [OF assms(1,2)] obtain segs
    where "base = CHR ''/'' # join_slash segs" "segs \<noteq> []" "\<forall>s \<in> set segs. plain_segment s"
    unfolding base_def by blast
  from join_under_base [OF this plain]
  have rd: "path_join [base, basename name] = base @ ''/'' @ basename name" .
  have "name \<noteq> []"
    using assms(3) by (auto simp add: basename_def)
  then have t: "truthy (JStr name)" by simp
  have run: "createResultDirectory dirname f (JStr name) =
      (case createDirectory f base of
         Throw e \<Rightarrow> Throw e
       | Return (made, f1) \<Rightarrow>
           if \<not> made
           then Return (DirectoryError (Error ''Could not create base results directory.''), f1)
           else (case createDirectory f1 (base @ ''/'' @ basename name) of
                   Throw e \<Rightarrow> Throw e
                 | Return (made2, f2) \<Rightarrow>
                     if \<not> made2
                     then Return (DirectoryError (Error ''Could not create results directory.''), f2)
                     else Return (Path (base @ ''/'' @ basename name), f2)))"
    using t
    by (simp add: createResultDirectory_def base_def [symmetric] rd Let_def
        cong: outcome.case_cong prod.case_cong if_cong)
  have empty: "createResultDirectory dirname f (JStr []) =
      Return (DirectoryError (Error ''No CAD file name provided.''), f)"
    by (simp add: createResultDirectory_def)
  have main: "createResultDirectory dirname f (JStr name) = Throw SystemError \<or>
      (\<exists>f'. createResultDirectory dirname f (JStr name) =
              Return (Path (base @ ''/'' @ basename name), f') \<and>
            base @ ''/'' @ basename name \<in> existing f')"
    using createDirectory_outcome [of f base]
  proof (elim disjE conjE exE)
    assume "createDirectory f base = Throw SystemError"
    then show ?thesis by (simp add: run)
  next
    fix f1
    assume f1: "createDirectory f base = Return (True, f1)"
    from createDirectory_outcome [of f1 "base @ ''/'' @ basename name"] show ?thesis
    proof (elim disjE conjE exE)
      assume "createDirectory f1 (base @ ''/'' @ basename name) = Throw SystemError"
      with f1 show ?thesis by (simp add: run)
    next
      fix f2
      assume "createDirectory f1 (base @ ''/'' @ basename name) = Return (True, f2)"
        and "base @ ''/'' @ basename name \<in> existing f2"
      with f1 show ?thesis by (simp add: run)
    qed
  qed
  have ok: "createResultDirectory dirname f (JStr name) \<noteq> Throw SystemError"
    if "mkdir_fails f = {}"
    using that by (simp add: run createDirectory_cases)
  from empty basename_no_slash [of name] main ok show ?thesis
    unfolding base_def by blast
qed

theorem createResultDirectory_under_base_witness:
  "createResultDirectory ''/app/routes''
     \<lparr>existing = {''/app'', ''/app/routes''}, mkdir_fails = {}\<rparr> (JStr []) =
     Return (DirectoryError (Error ''No CAD file name provided.''),
       \<lparr>existing = {''/app'', ''/app/routes''}, mkdir_fails = {}\<rparr>) \<and>
   basename ''../../etc/passwd'' = ''passwd'' \<and>
   (\<exists>f'. createResultDirectory ''/app/routes''
      \<lparr>existing = {''/app'', ''/app/routes''}, mkdir_fails = {}\<rparr> (JStr ''../../etc/passwd'') =
      Return (Path ''/app/results/passwd'', f') \<and> ''/app/results/passwd'' \<in> existing f')"
proof -
  let ?f = "\<lparr>existing = {''/app'', ''/app/routes''}, mkdir_fails = {}\<rparr>"
  have b: "basename ''../../etc/passwd'' = ''passwd''"
    by (simp add: basename_def)
  have j: "path_join [''/app/routes'', ''..'', ''results''] = ''/app/results''"
    by (simp add: path_join_def normalize_def)
  have hyps: "''/app/routes'' \<noteq> []" "hd ''/app/routes'' = CHR ''/''"
    "basename ''../../etc/passwd'' \<noteq> []" "basename ''../../etc/passwd'' \<noteq> ''.''"
    "basename ''../../etc/passwd'' \<noteq> ''..''"
    by (simp_all add: b)
  note inst = createResultDirectory_under_base [OF hyps, of ?f, unfolded b j]
  from inst have "createResultDirectory ''/app/routes'' ?f (JStr ''../../etc/passwd'')
      \<noteq> Throw SystemError"
    by simp
  with inst show ?thesis
    by (simp add: b)
qed

end
